theory Spec2Isabelle
  imports Main "HOL-Library.Sublist"
begin

section \<open>Python values\<close>

text \<open>
  A Python \<open>str\<close> is modelled as a \<open>string\<close>: the list of the bytes of its UTF-8
  encoding. Concatenation, emptiness and the substring test \<open>a in b\<close> (for well-formed
  text) are the same on the encoded bytes as on the code points, and the substring test
  is \<^const>\<open>sublist\<close>.

  \<open>str.lower\<close> and \<open>str.strip\<close> depend on the Unicode tables of the Python runtime, which
  are not part of this program. They are parameters of the model: every theorem below
  holds for any pair of functions.
\<close>

record runtime =
  str_lower :: "string \<Rightarrow> string"
  str_strip :: "string \<Rightarrow> string"

text \<open>The only exception that \<open>handle_message\<close> can raise itself.\<close>

datatype error = AttributeError

text \<open>\<open>str(n)\<close> for an integer: the decimal digits, with a minus sign when negative.\<close>

fun digits :: "nat \<Rightarrow> string" where
  "digits n = (if n < 10 then [''0123456789'' ! n] else digits (n div 10) @ [''0123456789'' ! (n mod 10)])"

declare digits.simps [simp del]

definition str_int :: "int \<Rightarrow> string" where
  "str_int i = (if i < 0 then CHR ''-'' # digits (nat (- i)) else digits (nat i))"

text \<open>Truthiness of an optional string (\<open>None\<close> and \<open>""\<close> are false), and \<open>a or b\<close>.\<close>

fun truthy :: "string option \<Rightarrow> bool" where
  "truthy None = False"
| "truthy (Some s) = (s \<noteq> [])"

fun str_or :: "string option \<Rightarrow> string \<Rightarrow> string" where
  "str_or None d = d"
| "str_or (Some s) d = (if s \<noteq> [] then s else d)"

section \<open>Configuration\<close>

text \<open>
  The module constants read from the environment (lines 59 to 70). The window is a number
  of minutes; times are integers counting microseconds, the resolution of \<open>datetime\<close>, so
  \<open>timedelta(minutes=m)\<close> is \<open>m * 60000000\<close>. The configured number of minutes is taken
  to be one that \<open>timedelta\<close> accepts (below 999999999 days in size).
\<close>

record config =
  GROUP_ID :: int
  HAUPTGRUPPE_TOPIC_ID :: int
  BIETE_TOPIC_ID :: int
  SUCHE_TOPIC_ID :: int
  CONTEXT_TIME_WINDOW_MINUTES :: int

definition timedelta_minutes :: "int \<Rightarrow> int" where
  "timedelta_minutes m = m * 60000000"

section \<open>The context store\<close>

text \<open>\<open>user_forwarding_context\<close>: a dictionary from user id to the topics and the timestamp.\<close>

record context_data =
  topics :: "int list"
  timestamp :: int

type_synonym contexts = "int \<rightharpoonup> context_data"

text \<open>
  \<open>get_active_topics_for_user\<close> (lines 75 to 94). \<open>now\<close> is the value that
  \<open>datetime.now()\<close> returns in the call. The result is the returned list with the dictionary
  after the call.
\<close>

definition get_active_topics_for_user ::
    "config \<Rightarrow> int \<Rightarrow> int \<Rightarrow> contexts \<Rightarrow> int list \<times> contexts" where
  "get_active_topics_for_user cfg now uid ctx =
     (case ctx uid of
        None \<Rightarrow> ([], ctx)
      | Some cd \<Rightarrow>
          (let time_diff = now - timestamp cd
           in if time_diff > timedelta_minutes (CONTEXT_TIME_WINDOW_MINUTES cfg)
              then ([], ctx(uid := None))
              else (topics cd, ctx)))"

text \<open>\<open>update_user_context\<close> (lines 96 to 104).\<close>

definition update_user_context :: "int \<Rightarrow> int \<Rightarrow> int list \<Rightarrow> contexts \<Rightarrow> contexts" where
  "update_user_context now uid tps ctx = ctx(uid \<mapsto> \<lparr>topics = tps, timestamp = now\<rparr>)"

section \<open>Messages and the delivery calls\<close>

text \<open>
  The fields of \<open>telegram.User\<close> and \<open>telegram.Message\<close> that the handler reads. A file is
  its \<open>file_id\<close>; \<open>photo\<close> is the tuple of sizes (empty when there is no photo).
\<close>

record user =
  id' :: int
  first_name :: string

record message =
  chat_id :: int
  message_thread_id :: "int option"
  from_user :: "user option"
  text' :: "string option"
  caption :: "string option"
  photo :: "string list"
  video :: "string option"
  document :: "string option"
  audio :: "string option"
  voice :: "string option"
  video_note :: "string option"
  sticker :: "string option"

text \<open>
  A call of a method of \<open>context.bot\<close>, with \<open>chat_id\<close>, \<open>message_thread_id\<close>, then the text
  or the file and its caption. \<open>parse_mode\<close> is \<open>"Markdown"\<close> wherever it is passed and is
  not recorded.
\<close>

datatype call =
    send_message int int string
  | send_photo int int string string
  | send_video int int string string
  | send_document int int string string
  | send_audio int int string string
  | send_voice int int string string
  | send_video_note int int string
  | send_sticker int int string

text \<open>
  The delivery layer is outside the program. Whether a call succeeds may depend on
  everything attempted before: a \<open>bot\<close> maps the calls made so far, with their outcomes,
  and the next call to \<open>True\<close> (it returns) or \<open>False\<close> (it raises an \<open>Exception\<close>).
\<close>

type_synonym trace = "(call \<times> bool) list"
type_synonym bot = "trace \<Rightarrow> call \<Rightarrow> bool"

definition attempt :: "bot \<Rightarrow> call \<Rightarrow> trace \<Rightarrow> bool \<times> trace" where
  "attempt b c tr = (b tr c, tr @ [(c, b tr c)])"

text \<open>The strings built on lines 252, 118 to 120 and 297.\<close>

definition user_link :: "user \<Rightarrow> string" where
  "user_link u = ''['' @ first_name u @ ''](tg://user?id='' @ str_int (id' u) @ '')''"

definition attribution_header :: "string \<Rightarrow> string" where
  "attribution_header ul = [CHR 0xF0, CHR 0x9F, CHR 0x93, CHR 0xA8] @ '' Von '' @ ul"

definition caption_text :: "message \<Rightarrow> string \<Rightarrow> string" where
  "caption_text m ul =
     (if truthy (caption m)
      then attribution_header ul @ '':'' @ [CHR 0x0A, CHR 0x0A] @ the (caption m)
      else attribution_header ul)"

definition text_body :: "string \<Rightarrow> string \<Rightarrow> string" where
  "text_body ul txt = attribution_header ul @ '':'' @ [CHR 0x0A, CHR 0x0A] @ txt"

text \<open>
  \<open>forward_media_to_topic\<close> (lines 106 to 206). The whole body is inside
  \<open>try ... except Exception\<close>: a call that fails ends the function, and nothing is raised.
\<close>

definition forward_media_to_topic ::
    "config \<Rightarrow> bot \<Rightarrow> message \<Rightarrow> int \<Rightarrow> string \<Rightarrow> trace \<Rightarrow> trace" where
  "forward_media_to_topic cfg b m topic_id ul tr =
     (if photo m \<noteq> [] then
        snd (attempt b (send_photo (GROUP_ID cfg) topic_id (last (photo m)) (caption_text m ul)) tr)
      else case video m of Some f \<Rightarrow>
        snd (attempt b (send_video (GROUP_ID cfg) topic_id f (caption_text m ul)) tr)
      | None \<Rightarrow> (case document m of Some f \<Rightarrow>
        snd (attempt b (send_document (GROUP_ID cfg) topic_id f (caption_text m ul)) tr)
      | None \<Rightarrow> (case audio m of Some f \<Rightarrow>
        snd (attempt b (send_audio (GROUP_ID cfg) topic_id f (caption_text m ul)) tr)
      | None \<Rightarrow> (case voice m of Some f \<Rightarrow>
        snd (attempt b (send_voice (GROUP_ID cfg) topic_id f (caption_text m ul)) tr)
      | None \<Rightarrow> (case video_note m of Some f \<Rightarrow>
        (case attempt b (send_video_note (GROUP_ID cfg) topic_id f) tr of
           (ok, tr1) \<Rightarrow>
             if ok then snd (attempt b (send_message (GROUP_ID cfg) topic_id (caption_text m ul)) tr1)
             else tr1)
      | None \<Rightarrow> (case sticker m of Some f \<Rightarrow>
        (case attempt b (send_sticker (GROUP_ID cfg) topic_id f) tr of
           (ok, tr1) \<Rightarrow>
             if ok \<and> truthy (caption m)
             then snd (attempt b (send_message (GROUP_ID cfg) topic_id (caption_text m ul)) tr1)
             else tr1)
      | None \<Rightarrow> tr))))))"

section \<open>The handler\<close>

text \<open>Line 240: \<open>message.text or message.caption or ""\<close>.\<close>

definition message_text :: "message \<Rightarrow> string" where
  "message_text m = str_or (text' m) (str_or (caption m) [])"

text \<open>Lines 258 to 266.\<close>

definition has_media :: "message \<Rightarrow> bool" where
  "has_media m \<longleftrightarrow>
     photo m \<noteq> [] \<or> video m \<noteq> None \<or> document m \<noteq> None \<or> audio m \<noteq> None \<or>
     voice m \<noteq> None \<or> video_note m \<noteq> None \<or> sticker m \<noteq> None"

text \<open>Lines 254 and 270 to 282: the topics of the hashtags found in the lower-cased text.\<close>

definition target_topics :: "runtime \<Rightarrow> config \<Rightarrow> string \<Rightarrow> int list" where
  "target_topics rt cfg txt =
     (let text_lower = str_lower rt txt
      in (if sublist ''#biete'' text_lower then [BIETE_TOPIC_ID cfg] else []) @
         (if sublist ''#suche'' text_lower then [SUCHE_TOPIC_ID cfg] else []))"

text \<open>
  The loops of lines 290 to 302 (and 322 to 334), where each failure is caught inside the
  loop body, and of lines 306 to 307 (and 338 to 339).
\<close>

fun send_text_to_topics :: "config \<Rightarrow> bot \<Rightarrow> string \<Rightarrow> string \<Rightarrow> int list \<Rightarrow> trace \<Rightarrow> trace" where
  "send_text_to_topics cfg b ul txt [] tr = tr"
| "send_text_to_topics cfg b ul txt (topic_id # rest) tr =
     send_text_to_topics cfg b ul txt rest
       (snd (attempt b (send_message (GROUP_ID cfg) topic_id (text_body ul txt)) tr))"

fun forward_media_to_topics :: "config \<Rightarrow> bot \<Rightarrow> message \<Rightarrow> string \<Rightarrow> int list \<Rightarrow> trace \<Rightarrow> trace" where
  "forward_media_to_topics cfg b m ul [] tr = tr"
| "forward_media_to_topics cfg b m ul (topic_id # rest) tr =
     forward_media_to_topics cfg b m ul rest (forward_media_to_topic cfg b m topic_id ul tr)"

text \<open>Text first, then media: lines 289 to 307 and 321 to 339.\<close>

definition dispatch ::
    "runtime \<Rightarrow> config \<Rightarrow> bot \<Rightarrow> message \<Rightarrow> string \<Rightarrow> int list \<Rightarrow> trace \<Rightarrow> trace" where
  "dispatch rt cfg b m ul tps tr =
     (let txt = message_text m;
          tr1 = (if str_strip rt txt \<noteq> [] then send_text_to_topics cfg b ul txt tps tr else tr)
      in if has_media m then forward_media_to_topics cfg b m ul tps tr1 else tr1)"

text \<open>
  The state that the handler changes: the dictionary and the calls made on the bot.
\<close>

record state =
  user_forwarding_context :: contexts
  sent :: trace

text \<open>
  \<open>handle_message\<close> (lines 208 to 344). The argument is \<open>update.message\<close>; \<open>now\<close> is
  the value of \<open>datetime.now()\<close> in the one call of the store that an invocation makes.
  Logging changes neither the dictionary nor the calls and is left out.
  When \<open>message.from_user\<close> is \<open>None\<close>, line 252 reads \<open>user.first_name\<close> and raises
  \<open>AttributeError\<close>.
\<close>

definition handle_message ::
    "runtime \<Rightarrow> config \<Rightarrow> bot \<Rightarrow> int \<Rightarrow> message option \<Rightarrow> state \<Rightarrow> (error + unit) \<times> state" where
  "handle_message rt cfg b now upd s =
     (case upd of
        None \<Rightarrow> (Inr (), s)
      | Some m \<Rightarrow>
          if chat_id m \<noteq> GROUP_ID cfg then (Inr (), s)
          else if message_thread_id m \<noteq> Some (HAUPTGRUPPE_TOPIC_ID cfg) then (Inr (), s)
          else (case from_user m of
            None \<Rightarrow> (Inl AttributeError, s)
          | Some u \<Rightarrow>
              (let txt = message_text m;
                   ul = user_link u;
                   tps = target_topics rt cfg txt
               in if tps \<noteq> [] then
                    (Inr (),
                     \<lparr>user_forwarding_context =
                        update_user_context now (id' u) tps (user_forwarding_context s),
                      sent = dispatch rt cfg b m ul tps (sent s)\<rparr>)
                  else if has_media m \<or> str_strip rt txt \<noteq> [] then
                    (case get_active_topics_for_user cfg now (id' u) (user_forwarding_context s) of
                       (active_topics, ctx1) \<Rightarrow>
                         if active_topics \<noteq> [] then
                           (Inr (),
                            \<lparr>user_forwarding_context = ctx1,
                             sent = dispatch rt cfg b m ul active_topics (sent s)\<rparr>)
                         else (Inr (), \<lparr>user_forwarding_context = ctx1, sent = sent s\<rparr>))
                  else (Inr (), s))))"

section \<open>Observing the calls\<close>

text \<open>The chat, the thread and the caption that a call names, and whether it carries a file.\<close>

fun chat_of :: "call \<Rightarrow> int" where
  "chat_of (send_message c t x) = c"
| "chat_of (send_photo c t f x) = c"
| "chat_of (send_video c t f x) = c"
| "chat_of (send_document c t f x) = c"
| "chat_of (send_audio c t f x) = c"
| "chat_of (send_voice c t f x) = c"
| "chat_of (send_video_note c t f) = c"
| "chat_of (send_sticker c t f) = c"

fun thread_of :: "call \<Rightarrow> int" where
  "thread_of (send_message c t x) = t"
| "thread_of (send_photo c t f x) = t"
| "thread_of (send_video c t f x) = t"
| "thread_of (send_document c t f x) = t"
| "thread_of (send_audio c t f x) = t"
| "thread_of (send_voice c t f x) = t"
| "thread_of (send_video_note c t f) = t"
| "thread_of (send_sticker c t f) = t"

fun caption_of :: "call \<Rightarrow> string option" where
  "caption_of (send_photo c t f x) = Some x"
| "caption_of (send_video c t f x) = Some x"
| "caption_of (send_document c t f x) = Some x"
| "caption_of (send_audio c t f x) = Some x"
| "caption_of (send_voice c t f x) = Some x"
| "caption_of (send_message c t x) = None"
| "caption_of (send_video_note c t f) = None"
| "caption_of (send_sticker c t f) = None"

fun is_payload :: "call \<Rightarrow> bool" where
  "is_payload (send_message c t x) = False"
| "is_payload (send_photo c t f x) = True"
| "is_payload (send_video c t f x) = True"
| "is_payload (send_document c t f x) = True"
| "is_payload (send_audio c t f x) = True"
| "is_payload (send_voice c t f x) = True"
| "is_payload (send_video_note c t f) = True"
| "is_payload (send_sticker c t f) = True"

text \<open>The message has a payload of a kind whose delivery call takes a caption.\<close>

definition caption_capable :: "message \<Rightarrow> bool" where
  "caption_capable m \<longleftrightarrow>
     photo m \<noteq> [] \<or> video m \<noteq> None \<or> document m \<noteq> None \<or> audio m \<noteq> None \<or> voice m \<noteq> None"

text \<open>
  What is known of the calls that one run of \<open>forward_media_to_topic\<close> adds, whatever the
  bot answers: they go to the group and the given topic, a caption is \<open>caption_text\<close>,
  a message with media always has its payload call attempted first, and a payload that
  takes a caption is the only call.
\<close>

definition media_block :: "config \<Rightarrow> message \<Rightarrow> string \<Rightarrow> int \<Rightarrow> trace \<Rightarrow> bool" where
  "media_block cfg m ul d blk \<longleftrightarrow>
     list_all (\<lambda>(c, ok). chat_of c = GROUP_ID cfg \<and> thread_of c = d \<and>
                 (caption_of c = None \<or> caption_of c = Some (caption_text m ul))) blk \<and>
     (if has_media m then blk \<noteq> [] \<and> is_payload (fst (hd blk)) else blk = []) \<and>
     (if caption_capable m then map (caption_of \<circ> fst) blk = [Some (caption_text m ul)] else True)"

text \<open>
  The topics that an accepted message from sender \<open>u\<close> is dispatched to: those of its
  hashtags, else (for a message with content) those of the sender's context.
\<close>

definition final_destinations ::
    "runtime \<Rightarrow> config \<Rightarrow> int \<Rightarrow> message \<Rightarrow> user \<Rightarrow> contexts \<Rightarrow> int list" where
  "final_destinations rt cfg now m u ctx =
     (let tps = target_topics rt cfg (message_text m)
      in if tps \<noteq> [] then tps
         else if has_media m \<or> str_strip rt (message_text m) \<noteq> []
         then fst (get_active_topics_for_user cfg now (id' u) ctx)
         else [])"

section \<open>The classifier as claim C2 words it\<close>

text \<open>
  The position of the first occurrence of a marker in a text, and the destinations of the
  markers that occur in the lower-cased text, ordered by those positions, duplicates
  collapsed. This follows the words of the claim, not the source; it is compared with
  \<open>target_topics\<close> below.
\<close>

fun first_index :: "string \<Rightarrow> string \<Rightarrow> nat option" where
  "first_index mk [] = (if mk = [] then Some 0 else None)"
| "first_index mk (c # cs) =
     (if prefix mk (c # cs) then Some 0 else map_option Suc (first_index mk cs))"

definition classify_first_occurrence_order :: "runtime \<Rightarrow> config \<Rightarrow> string \<Rightarrow> int list" where
  "classify_first_occurrence_order rt cfg txt =
     (let text_lower = str_lower rt txt
      in case (first_index ''#biete'' text_lower, first_index ''#suche'' text_lower) of
           (None, None) \<Rightarrow> []
         | (Some i, None) \<Rightarrow> [BIETE_TOPIC_ID cfg]
         | (None, Some j) \<Rightarrow> [SUCHE_TOPIC_ID cfg]
         | (Some i, Some j) \<Rightarrow>
             remdups (if i \<le> j then [BIETE_TOPIC_ID cfg, SUCHE_TOPIC_ID cfg]
                      else [SUCHE_TOPIC_ID cfg, BIETE_TOPIC_ID cfg]))"

section \<open>Histories of the context store\<close>

text \<open>
  To speak of "the most recent put" the store is run from the empty dictionary through a
  history of calls: \<open>Put uid tps t\<close> is \<open>update_user_context(uid, tps)\<close> at clock value
  \<open>t\<close>, and \<open>Get uid t\<close> is \<open>get_active_topics_for_user(uid)\<close> at clock value \<open>t\<close>.
\<close>

datatype store_op = Put int "int list" int | Get int int

fun op_time :: "store_op \<Rightarrow> int" where
  "op_time (Put uid tps t) = t"
| "op_time (Get uid t) = t"

fun apply_store_op :: "config \<Rightarrow> store_op \<Rightarrow> contexts \<Rightarrow> contexts" where
  "apply_store_op cfg (Put uid tps t) ctx = update_user_context t uid tps ctx"
| "apply_store_op cfg (Get uid t) ctx = snd (get_active_topics_for_user cfg t uid ctx)"

definition run_store :: "config \<Rightarrow> store_op list \<Rightarrow> contexts" where
  "run_store cfg ops = fold (apply_store_op cfg) ops Map.empty"

text \<open>The topics and the clock value of the last \<open>Put\<close> for a user in a history, if any.\<close>

fun last_put :: "int \<Rightarrow> store_op list \<Rightarrow> (int list \<times> int) option" where
  "last_put uid [] = None"
| "last_put uid (Put u tps t # ops) =
     (case last_put uid ops of
        Some p \<Rightarrow> Some p
      | None \<Rightarrow> if u = uid then Some (tps, t) else None)"
| "last_put uid (Get u t # ops) = last_put uid ops"

section \<open>Concrete instances\<close>

text \<open>
  The defaults of lines 59 to 70, and string functions that agree with \<open>str.lower\<close> and
  \<open>str.strip\<close> on ASCII text; they are used to evaluate the model on concrete inputs.
\<close>

definition default_config :: config where
  "default_config =
     \<lparr>GROUP_ID = - 1003356712572, HAUPTGRUPPE_TOPIC_ID = 2, BIETE_TOPIC_ID = 3,
      SUCHE_TOPIC_ID = 4, CONTEXT_TIME_WINDOW_MINUTES = 5\<rparr>"

definition ascii_lower_char :: "char \<Rightarrow> char" where
  "ascii_lower_char c =
     (case map_of (zip ''ABCDEFGHIJKLMNOPQRSTUVWXYZ'' ''abcdefghijklmnopqrstuvwxyz'') c of
        Some l \<Rightarrow> l
      | None \<Rightarrow> c)"

definition ascii_isspace :: "char \<Rightarrow> bool" where
  "ascii_isspace c \<longleftrightarrow>
     c \<in> set [CHR 0x09, CHR 0x0A, CHR 0x0B, CHR 0x0C, CHR 0x0D,
              CHR 0x1C, CHR 0x1D, CHR 0x1E, CHR 0x1F, CHR 0x20]"

definition ascii_runtime :: runtime where
  "ascii_runtime =
     \<lparr>str_lower = map ascii_lower_char,
      str_strip = (\<lambda>s. rev (dropWhile ascii_isspace (rev (dropWhile ascii_isspace s))))\<rparr>"

text \<open>A bot on which every call succeeds, and one on which every call fails.\<close>

definition bot_ok :: bot where
  "bot_ok tr c = True"

definition bot_down :: bot where
  "bot_down tr c = False"

text \<open>An empty message in the monitored thread of the default configuration, and a sender.\<close>

definition ann :: user where
  "ann = \<lparr>id' = 42, first_name = ''Ann''\<rparr>"

definition blank_message :: message where
  "blank_message =
     \<lparr>chat_id = - 1003356712572, message_thread_id = Some 2, from_user = Some ann,
      text' = None, caption = None, photo = [], video = None, document = None,
      audio = None, voice = None, video_note = None, sticker = None\<rparr>"

definition state0 :: state where
  "state0 = \<lparr>user_forwarding_context = Map.empty, sent = []\<rparr>"

text \<open>A bot on which every text send fails and every payload send succeeds.\<close>

definition bot_no_text :: bot where
  "bot_no_text tr c = is_payload c"

text \<open>A bot on which only the video note sent to topic 3 fails.\<close>

definition bot_no_video_note_3 :: bot where
  "bot_no_video_note_3 tr c \<longleftrightarrow> \<not> (is_payload c \<and> thread_of c = 3)"

text \<open>Messages of the scenarios, and a state in which the sender has a context.\<close>

definition msg_bike :: message where
  "msg_bike = blank_message\<lparr>text' := Some ''#biete Selling a bike''\<rparr>"

definition msg_follow_up :: message where
  "msg_follow_up = blank_message\<lparr>text' := Some ''still available''\<rparr>"

definition msg_photo :: message where
  "msg_photo =
     blank_message\<lparr>caption := Some ''#suche looking for this'', photo := [''small'', ''large'']\<rparr>"

definition msg_video_note :: message where
  "msg_video_note =
     blank_message\<lparr>caption := Some ''#biete #suche note'', video_note := Some ''vn''\<rparr>"

definition msg_sticker :: message where
  "msg_sticker = blank_message\<lparr>caption := Some ''hi'', sticker := Some ''st''\<rparr>"

definition msg_no_sender :: message where
  "msg_no_sender = blank_message\<lparr>from_user := None, text' := Some ''#biete hello''\<rparr>"

definition state_ann_suche :: state where
  "state_ann_suche =
     \<lparr>user_forwarding_context = [42 \<mapsto> \<lparr>topics = [4], timestamp = 0\<rparr>], sent = []\<rparr>"

text \<open>
  A configuration in which both topic variables of the environment name topic 3.
\<close>

definition one_topic_config :: config where
  "one_topic_config = default_config\<lparr>SUCHE_TOPIC_ID := 3\<rparr>"

section \<open>Unfolding the concrete instances\<close>

lemmas concrete_defs =
  default_config_def ascii_runtime_def ascii_lower_char_def ascii_isspace_def
  blank_message_def ann_def state0_def one_topic_config_def

section \<open>Properties of the context store\<close>

lemma last_put_snoc:
  "last_put uid (ops @ [x]) =
     (case x of Put u tps t \<Rightarrow> if u = uid then Some (tps, t) else last_put uid ops
              | Get u t \<Rightarrow> last_put uid ops)"
  by (induction uid ops rule: last_put.induct) (auto split: store_op.splits option.splits)

lemma run_store_snoc: "run_store cfg (ops @ [x]) = apply_store_op cfg x (run_store cfg ops)"
  by (simp add: run_store_def)

lemma get_other: "u \<noteq> uid \<Longrightarrow> snd (get_active_topics_for_user cfg t u ctx) uid = ctx uid"
  by (simp add: get_active_topics_for_user_def Let_def split: option.splits)

lemma get_same:
  "snd (get_active_topics_for_user cfg t uid ctx) uid =
     (case ctx uid of None \<Rightarrow> None
      | Some cd \<Rightarrow> if t - timestamp cd > timedelta_minutes (CONTEXT_TIME_WINDOW_MINUTES cfg)
                   then None else Some cd)"
  by (simp add: get_active_topics_for_user_def Let_def split: option.splits)

lemma store_invariant:
  "case last_put uid ops of
     None \<Rightarrow> run_store cfg ops uid = None
   | Some (tps, t0) \<Rightarrow>
       run_store cfg ops uid = Some \<lparr>topics = tps, timestamp = t0\<rparr> \<or>
       (run_store cfg ops uid = None \<and>
        (\<exists>t. Get uid t \<in> set ops \<and> t - t0 > timedelta_minutes (CONTEXT_TIME_WINDOW_MINUTES cfg)))"
proof (induction ops rule: rev_induct)
  case Nil
  show ?case by (simp add: run_store_def)
next
  case (snoc x ops)
  show ?case
  proof (cases x)
    case (Put u tps t)
    with snoc show ?thesis
      by (auto simp: last_put_snoc run_store_snoc update_user_context_def split: option.splits)
  next
    case (Get u t)
    show ?thesis
    proof (cases "u = uid")
      case True
      with snoc Get show ?thesis
        by (auto simp: last_put_snoc run_store_snoc get_same split: option.splits)
    next
      case False
      with snoc Get show ?thesis
        by (auto simp: last_put_snoc run_store_snoc get_other split: option.splits)
    qed
  qed
qed

text \<open>
  Claim C4. After any history of calls of the store, none at a later clock value than
  \<open>now\<close>, \<open>get_active_topics_for_user\<close> returns the empty list when the history has no
  put for the user; when \<open>now\<close> minus the clock value of the user's last put is strictly
  greater than the window it returns the empty list and the user has no entry afterwards;
  otherwise (an age equal to the window included) it returns the topics of the last put
  and leaves the dictionary as it is, the entry keeping the timestamp of that put.
\<close>

theorem get_returns_most_recent_put:
  assumes "\<forall>x \<in> set ops. op_time x \<le> now"
  shows "get_active_topics_for_user cfg now uid (run_store cfg ops) =
           (case last_put uid ops of
              None \<Rightarrow> ([], run_store cfg ops)
            | Some (tps, t0) \<Rightarrow>
                if now - t0 > timedelta_minutes (CONTEXT_TIME_WINDOW_MINUTES cfg)
                then ([], (run_store cfg ops)(uid := None))
                else (tps, run_store cfg ops)) \<and>
         (case last_put uid ops of
              None \<Rightarrow> True
            | Some (tps, t0) \<Rightarrow>
                now - t0 \<le> timedelta_minutes (CONTEXT_TIME_WINDOW_MINUTES cfg) \<longrightarrow>
                snd (get_active_topics_for_user cfg now uid (run_store cfg ops)) uid =
                  Some \<lparr>topics = tps, timestamp = t0\<rparr>)"
proof (cases "last_put uid ops")
  case None
  with store_invariant [where uid=uid and ops=ops and cfg=cfg] show ?thesis
    by (simp add: get_active_topics_for_user_def)
next
  case (Some p)
  obtain tps t0 where p: "p = (tps, t0)" by (cases p)
  from store_invariant [where uid=uid and ops=ops and cfg=cfg] Some p
  consider (live) "run_store cfg ops uid = Some \<lparr>topics = tps, timestamp = t0\<rparr>"
    | (gone) t where "run_store cfg ops uid = None" "Get uid t \<in> set ops"
        "t - t0 > timedelta_minutes (CONTEXT_TIME_WINDOW_MINUTES cfg)"
    by auto
  then show ?thesis
  proof cases
    case live
    with Some p show ?thesis
      by (simp add: get_active_topics_for_user_def Let_def)
  next
    case gone
    from gone(2) assms have "t \<le> now" by force
    with gone(3) have "now - t0 > timedelta_minutes (CONTEXT_TIME_WINDOW_MINUTES cfg)" by simp
    moreover from gone(1) have "(run_store cfg ops)(uid := None) = run_store cfg ops" by auto
    ultimately show ?thesis using Some p gone(1)
      by (simp add: get_active_topics_for_user_def)
  qed
qed

theorem get_returns_most_recent_put_witness:
  "op_time (Put 42 [3] 0) \<le> 300000000 \<and> op_time (Get 42 300000000) \<le> 300000000 \<and>
   op_time (Put 7 [4] 300000000) \<le> 300000000 \<and>
   fst (get_active_topics_for_user default_config 300000000 42
       (run_store default_config [Put 42 [3] 0, Get 42 300000000, Put 7 [4] 300000000])) = [3] \<and>
   snd (get_active_topics_for_user default_config 300000000 42
       (run_store default_config [Put 42 [3] 0, Get 42 300000000, Put 7 [4] 300000000])) 42 =
     Some \<lparr>topics = [3], timestamp = 0\<rparr>"
proof -
  have h: "\<forall>x \<in> set [Put 42 [3] 0, Get 42 300000000, Put 7 [4] 300000000]. op_time x \<le> 300000000"
    by simp
  from get_returns_most_recent_put [OF h, of default_config 42]
  have "get_active_topics_for_user default_config 300000000 42
       (run_store default_config [Put 42 [3] 0, Get 42 300000000, Put 7 [4] 300000000]) =
     ([3], run_store default_config [Put 42 [3] 0, Get 42 300000000, Put 7 [4] 300000000])"
    by (simp add: default_config_def timedelta_minutes_def)
  then show ?thesis
    by (simp add: run_store_def update_user_context_def get_active_topics_for_user_def
        default_config_def timedelta_minutes_def)
qed

text \<open>
  Claim C9. Two calls of \<open>get_active_topics_for_user\<close> for one user at the same clock
  value return the same list, and the second call leaves the dictionary as the first left
  it; the first call changes nothing, or returns the empty list and deletes the user's entry.
\<close>

theorem get_twice_same:
  "(case get_active_topics_for_user cfg now uid ctx of
      (r1, ctx1) \<Rightarrow>
        (case get_active_topics_for_user cfg now uid ctx1 of
           (r2, ctx2) \<Rightarrow>
             r2 = r1 \<and> ctx2 = ctx1 \<and> (ctx1 = ctx \<or> (r1 = [] \<and> ctx1 = ctx(uid := None)))))"
  by (simp add: get_active_topics_for_user_def Let_def split: option.splits)

section \<open>Properties of the classifier\<close>

text \<open>
  Claim C2 says that the destinations are ordered by the first occurrence of their markers
  in the text, duplicates collapsed. On the text \<open>#suche #biete\<close> the handler computes
  Biete (3) before Suche (4), where that order would give Suche first; and when both
  markers are configured for topic 3 the handler lists that topic twice on
  \<open>#biete #suche\<close>, where collapsing would give it once.
\<close>

theorem first_occurrence_order_counterexample:
  "target_topics ascii_runtime default_config ''#suche #biete'' = [3, 4] \<and>
   classify_first_occurrence_order ascii_runtime default_config ''#suche #biete'' = [4, 3] \<and>
   target_topics ascii_runtime one_topic_config ''#biete #suche'' = [3, 3] \<and>
   classify_first_occurrence_order ascii_runtime one_topic_config ''#biete #suche'' = [3]"
  by (simp add: target_topics_def classify_first_occurrence_order_def sublist_code concrete_defs)

text \<open>
  Claim C2, amended. For every text the computed list holds the destination of every
  configured marker that occurs in the lower-cased text as a substring, once for each
  such marker and without collapsing, in the configured order (Biete, then Suche) whatever
  the positions of the markers in the text. It is empty when no marker occurs, and it has
  a duplicate exactly when both markers occur and their two configured destinations are
  the same.
\<close>

theorem target_topics_configured_order:
  "target_topics rt cfg txt =
     map snd (filter (\<lambda>(mk, d). \<exists>pre post. str_lower rt txt = pre @ mk @ post)
                [(''#biete'', BIETE_TOPIC_ID cfg), (''#suche'', SUCHE_TOPIC_ID cfg)]) \<and>
   (target_topics rt cfg txt = [] \<longleftrightarrow>
      \<not> (\<exists>pre post. str_lower rt txt = pre @ ''#biete'' @ post) \<and>
      \<not> (\<exists>pre post. str_lower rt txt = pre @ ''#suche'' @ post)) \<and>
   (distinct (target_topics rt cfg txt) \<longleftrightarrow>
      BIETE_TOPIC_ID cfg \<noteq> SUCHE_TOPIC_ID cfg \<or>
      \<not> ((\<exists>pre post. str_lower rt txt = pre @ ''#biete'' @ post) \<and>
         (\<exists>pre post. str_lower rt txt = pre @ ''#suche'' @ post)))"
proof -
  have occ: "(\<exists>pre post. str_lower rt txt = pre @ mk @ post) = sublist mk (str_lower rt txt)"
    for mk by (simp add: sublist_def)
  show ?thesis
    unfolding occ by (auto simp add: target_topics_def Let_def)
qed

theorem target_topics_configured_order_witness:
  "BIETE_TOPIC_ID default_config \<noteq> SUCHE_TOPIC_ID default_config \<and>
   target_topics ascii_runtime default_config ''#Suche, and #BIETE too'' = [3, 4] \<and>
   distinct (target_topics ascii_runtime default_config ''#Suche, and #BIETE too'') \<and>
   BIETE_TOPIC_ID one_topic_config = SUCHE_TOPIC_ID one_topic_config \<and>
   sublist ''#biete'' (str_lower ascii_runtime ''#Suche, and #BIETE too'') \<and>
   sublist ''#suche'' (str_lower ascii_runtime ''#Suche, and #BIETE too'') \<and>
   \<not> distinct (target_topics ascii_runtime one_topic_config ''#Suche, and #BIETE too'')"
proof -
  have ne: "BIETE_TOPIC_ID default_config \<noteq> SUCHE_TOPIC_ID default_config"
    and eq: "BIETE_TOPIC_ID one_topic_config = SUCHE_TOPIC_ID one_topic_config"
    by (simp_all add: concrete_defs)
  have b: "sublist ''#biete'' (str_lower ascii_runtime ''#Suche, and #BIETE too'')"
    and s: "sublist ''#suche'' (str_lower ascii_runtime ''#Suche, and #BIETE too'')"
    by (simp_all add: sublist_code concrete_defs)
  from target_topics_configured_order [of ascii_runtime default_config "''#Suche, and #BIETE too''"] ne
  have 1: "distinct (target_topics ascii_runtime default_config ''#Suche, and #BIETE too'')"
    by blast
  from target_topics_configured_order [of ascii_runtime one_topic_config "''#Suche, and #BIETE too''"]
    eq b s
  have 2: "\<not> distinct (target_topics ascii_runtime one_topic_config ''#Suche, and #BIETE too'')"
    unfolding sublist_def by blast
  have 3: "target_topics ascii_runtime default_config ''#Suche, and #BIETE too'' = [3, 4]"
    by (simp add: target_topics_def sublist_code concrete_defs)
  from 1 2 3 ne eq b s show ?thesis by blast
qed

text \<open>
  Claim C10 says that the computed list is free of duplicates for every text. When both
  markers are configured for topic 3, the list computed for \<open>#Suche und #Biete\<close> holds
  that topic twice.
\<close>

theorem duplicate_free_counterexample:
  "BIETE_TOPIC_ID one_topic_config = 3 \<and> SUCHE_TOPIC_ID one_topic_config = 3 \<and>
   target_topics ascii_runtime one_topic_config ''#Suche und #Biete'' = [3, 3] \<and>
   \<not> distinct (target_topics ascii_runtime one_topic_config ''#Suche und #Biete'')"
  by (simp add: target_topics_def sublist_code concrete_defs)

text \<open>
  Claim C10, amended. For every text the computed list is a subsequence of
  (Biete, Suche) and so has at most these two entries in that order, is exactly
  (Biete, Suche) when both markers occur, and is the same for any two texts in which the
  same markers occur, wherever they occur. It is free of duplicates except when both
  markers occur and the two configured destinations are the same.
\<close>

theorem target_topics_fixed_order:
  "(distinct (target_topics rt cfg txt) \<longleftrightarrow>
      BIETE_TOPIC_ID cfg \<noteq> SUCHE_TOPIC_ID cfg \<or>
      \<not> (sublist ''#biete'' (str_lower rt txt) \<and> sublist ''#suche'' (str_lower rt txt))) \<and>
   subseq (target_topics rt cfg txt) [BIETE_TOPIC_ID cfg, SUCHE_TOPIC_ID cfg] \<and>
   length (target_topics rt cfg txt) \<le> 2 \<and>
   (sublist ''#biete'' (str_lower rt txt) \<and> sublist ''#suche'' (str_lower rt txt) \<longrightarrow>
      target_topics rt cfg txt = [BIETE_TOPIC_ID cfg, SUCHE_TOPIC_ID cfg]) \<and>
   (sublist ''#biete'' (str_lower rt txt) = sublist ''#biete'' (str_lower rt txt2) \<and>
    sublist ''#suche'' (str_lower rt txt) = sublist ''#suche'' (str_lower rt txt2) \<longrightarrow>
      target_topics rt cfg txt = target_topics rt cfg txt2)"
  by (simp add: target_topics_def Let_def)

theorem target_topics_fixed_order_witness:
  "BIETE_TOPIC_ID default_config \<noteq> SUCHE_TOPIC_ID default_config \<and>
   sublist ''#biete'' (str_lower ascii_runtime ''#suche #biete'') \<and>
   sublist ''#suche'' (str_lower ascii_runtime ''#suche #biete'') \<and>
   distinct (target_topics ascii_runtime default_config ''#suche #biete'') \<and>
   target_topics ascii_runtime default_config ''#suche #biete'' = [3, 4] \<and>
   target_topics ascii_runtime default_config ''#BIETE x #Suche'' = [3, 4]"
proof -
  have ne: "BIETE_TOPIC_ID default_config \<noteq> SUCHE_TOPIC_ID default_config"
    by (simp add: default_config_def)
  have b: "sublist ''#biete'' (str_lower ascii_runtime ''#suche #biete'')"
    and s: "sublist ''#suche'' (str_lower ascii_runtime ''#suche #biete'')"
    and b2: "sublist ''#biete'' (str_lower ascii_runtime ''#BIETE x #Suche'')"
    and s2: "sublist ''#suche'' (str_lower ascii_runtime ''#BIETE x #Suche'')"
    by (simp_all add: sublist_code concrete_defs)
  note t = target_topics_fixed_order
    [of ascii_runtime default_config "''#suche #biete''" "''#BIETE x #Suche''"]
  from t ne have 0: "distinct (target_topics ascii_runtime default_config ''#suche #biete'')"
    by blast
  from t b s have 1: "target_topics ascii_runtime default_config ''#suche #biete'' =
      [BIETE_TOPIC_ID default_config, SUCHE_TOPIC_ID default_config]"
    by blast
  from t b s b2 s2 have 2: "target_topics ascii_runtime default_config ''#suche #biete'' =
      target_topics ascii_runtime default_config ''#BIETE x #Suche''"
    by blast
  from 0 1 2 ne b s show ?thesis by (simp add: default_config_def)
qed

section \<open>Messages that are not routed\<close>

lemma other_venue_dropped:
  "chat_id m \<noteq> GROUP_ID cfg \<Longrightarrow> handle_message rt cfg b now (Some m) s = (Inr (), s)"
  by (simp add: handle_message_def)

lemma other_thread_dropped:
  "message_thread_id m \<noteq> Some (HAUPTGRUPPE_TOPIC_ID cfg) \<Longrightarrow>
   handle_message rt cfg b now (Some m) s = (Inr (), s)"
  by (simp add: handle_message_def)

lemma no_message_dropped: "handle_message rt cfg b now None s = (Inr (), s)"
  by (simp add: handle_message_def)

lemma no_sender_raises:
  "chat_id m = GROUP_ID cfg \<Longrightarrow> message_thread_id m = Some (HAUPTGRUPPE_TOPIC_ID cfg) \<Longrightarrow>
   from_user m = None \<Longrightarrow> handle_message rt cfg b now (Some m) s = (Inl AttributeError, s)"
  by (simp add: handle_message_def)

text \<open>
  Claim C1. A message of another chat or another thread, and an update without a message,
  are dropped without any effect (the three lemmas above). A message of the monitored
  thread without a sender is not dropped silently: the handler raises
  \<open>AttributeError\<close>, here on such a message in the default configuration.
\<close>

theorem no_sender_attribute_error:
  "handle_message ascii_runtime default_config bot_ok 0 (Some msg_no_sender) state0 =
     (Inl AttributeError, state0)"
  by (simp add: handle_message_def msg_no_sender_def concrete_defs)

section \<open>The calls of a dispatch\<close>

lemma forward_media_to_topic_block:
  "\<exists>blk. forward_media_to_topic cfg b m d ul tr = tr @ blk \<and> media_block cfg m ul d blk"
  unfolding forward_media_to_topic_def media_block_def has_media_def caption_capable_def attempt_def
  by (auto split: option.splits)

lemma forward_media_to_topics_blocks:
  "\<exists>blocks. forward_media_to_topics cfg b m ul tps tr = tr @ concat blocks \<and>
            list_all2 (media_block cfg m ul) tps blocks"
proof (induction tps arbitrary: tr)
  case Nil
  show ?case by simp
next
  case (Cons d tps)
  obtain blk where blk: "forward_media_to_topic cfg b m d ul tr = tr @ blk" "media_block cfg m ul d blk"
    using forward_media_to_topic_block by blast
  obtain blocks where blocks:
    "forward_media_to_topics cfg b m ul tps (tr @ blk) = (tr @ blk) @ concat blocks"
    "list_all2 (media_block cfg m ul) tps blocks"
    using Cons.IH by blast
  have "forward_media_to_topics cfg b m ul (d # tps) tr = tr @ concat (blk # blocks)"
    using blk(1) blocks(1) by simp
  moreover have "list_all2 (media_block cfg m ul) (d # tps) (blk # blocks)"
    using blk(2) blocks(2) by simp
  ultimately show ?case by blast
qed

lemma send_text_to_topics_calls:
  "\<exists>texts. send_text_to_topics cfg b ul txt tps tr = tr @ texts \<and>
           map fst texts = map (\<lambda>d. send_message (GROUP_ID cfg) d (text_body ul txt)) tps"
proof (induction tps arbitrary: tr)
  case Nil
  show ?case by simp
next
  case (Cons d tps)
  let ?c = "send_message (GROUP_ID cfg) d (text_body ul txt)"
  obtain texts where texts:
    "send_text_to_topics cfg b ul txt tps (tr @ [(?c, b tr ?c)]) = (tr @ [(?c, b tr ?c)]) @ texts"
    "map fst texts = map (\<lambda>d. send_message (GROUP_ID cfg) d (text_body ul txt)) tps"
    using Cons.IH by blast
  have "send_text_to_topics cfg b ul txt (d # tps) tr = tr @ ((?c, b tr ?c) # texts)"
    using texts(1) by (simp add: attempt_def)
  moreover have "map fst ((?c, b tr ?c) # texts) =
      map (\<lambda>d. send_message (GROUP_ID cfg) d (text_body ul txt)) (d # tps)"
    using texts(2) by simp
  ultimately show ?case by blast
qed

lemma dispatch_calls:
  "\<exists>texts blocks.
     dispatch rt cfg b m ul tps tr = tr @ texts @ concat blocks \<and>
     map fst texts =
       (if str_strip rt (message_text m) \<noteq> []
        then map (\<lambda>d. send_message (GROUP_ID cfg) d (text_body ul (message_text m))) tps else []) \<and>
     (if has_media m then list_all2 (media_block cfg m ul) tps blocks else blocks = [])"
proof -
  define tr1 where "tr1 =
    (if str_strip rt (message_text m) \<noteq> [] then send_text_to_topics cfg b ul (message_text m) tps tr else tr)"
  have "\<exists>texts. tr1 = tr @ texts \<and>
      map fst texts =
       (if str_strip rt (message_text m) \<noteq> []
        then map (\<lambda>d. send_message (GROUP_ID cfg) d (text_body ul (message_text m))) tps else [])"
  proof (cases "str_strip rt (message_text m) \<noteq> []")
    case True
    then show ?thesis
      using send_text_to_topics_calls [of cfg b ul "message_text m" tps tr]
      by (simp add: tr1_def)
  next
    case False
    then show ?thesis by (simp add: tr1_def)
  qed
  then obtain texts where texts: "tr1 = tr @ texts"
    "map fst texts =
       (if str_strip rt (message_text m) \<noteq> []
        then map (\<lambda>d. send_message (GROUP_ID cfg) d (text_body ul (message_text m))) tps else [])"
    by blast
  show ?thesis
  proof (cases "has_media m")
    case True
    obtain blocks where blocks:
      "forward_media_to_topics cfg b m ul tps tr1 = tr1 @ concat blocks"
      "list_all2 (media_block cfg m ul) tps blocks"
      using forward_media_to_topics_blocks by blast
    have "dispatch rt cfg b m ul tps tr = tr @ texts @ concat blocks"
      using True blocks(1) texts(1) by (simp add: dispatch_def Let_def tr1_def)
    moreover have "if has_media m then list_all2 (media_block cfg m ul) tps blocks else blocks = []"
      using True blocks(2) by simp
    ultimately show ?thesis using texts(2) by blast
  next
    case False
    have "dispatch rt cfg b m ul tps tr = tr @ texts @ concat []"
      using False texts(1) by (simp add: dispatch_def Let_def tr1_def)
    moreover have "if has_media m then list_all2 (media_block cfg m ul) tps [] else [] = ([] :: trace list)"
      using False by simp
    ultimately show ?thesis using texts(2) by blast
  qed
qed

lemma media_block_threads:
  assumes "media_block cfg m ul d blk"
  shows "thread_of ` fst ` set blk \<subseteq> {d}"
    and "has_media m \<Longrightarrow> thread_of ` fst ` set blk = {d}"
    and "list_all (\<lambda>(c, ok). chat_of c = GROUP_ID cfg) blk"
proof -
  from assms have all: "\<forall>x \<in> set blk. chat_of (fst x) = GROUP_ID cfg \<and> thread_of (fst x) = d"
    by (auto simp: media_block_def list_all_iff)
  from assms have ne: "has_media m \<Longrightarrow> blk \<noteq> []"
    by (simp add: media_block_def)
  show 1: "thread_of ` fst ` set blk \<subseteq> {d}" using all by auto
  show "has_media m \<Longrightarrow> thread_of ` fst ` set blk = {d}"
  proof -
    assume "has_media m"
    with ne obtain x where "x \<in> set blk" by (cases blk) auto
    with all have "d \<in> thread_of ` fst ` set blk" by force
    with 1 show ?thesis by blast
  qed
  show "list_all (\<lambda>(c, ok). chat_of c = GROUP_ID cfg) blk"
    using all by (auto simp: list_all_iff)
qed

lemma media_blocks_threads:
  assumes "list_all2 (media_block cfg m ul) tps blocks"
  shows "thread_of ` fst ` set (concat blocks) \<subseteq> set tps \<and>
         (has_media m \<longrightarrow> thread_of ` fst ` set (concat blocks) = set tps) \<and>
         list_all (\<lambda>(c, ok). chat_of c = GROUP_ID cfg) (concat blocks)"
  using assms
proof (induction tps blocks rule: list_all2_induct)
  case Nil
  show ?case by simp
next
  case (Cons d tps blk blocks)
  note b = media_block_threads [OF Cons.hyps(1)]
  define A where "A = thread_of ` fst ` set blk"
  define B where "B = thread_of ` fst ` set (concat blocks)"
  have split: "thread_of ` fst ` set (concat (blk # blocks)) = A \<union> B"
    by (simp add: image_Un A_def B_def)
  have A1: "A \<subseteq> {d}" and A2: "has_media m \<Longrightarrow> A = {d}"
    using b(1,2) by (simp_all add: A_def)
  have B1: "B \<subseteq> set tps" and B2: "has_media m \<Longrightarrow> B = set tps"
    using Cons.IH by (simp_all add: B_def)
  have "A \<union> B \<subseteq> set (d # tps)" using A1 B1 by auto
  moreover have "has_media m \<longrightarrow> A \<union> B = set (d # tps)" using A2 B2 by auto
  moreover have "list_all (\<lambda>(c, ok). chat_of c = GROUP_ID cfg) (concat (blk # blocks))"
    using b(3) Cons.IH by simp
  ultimately show ?case unfolding split by blast
qed

lemma dispatch_threads:
  "\<exists>new. dispatch rt cfg b m ul tps tr = tr @ new \<and>
         thread_of ` fst ` set new \<subseteq> set tps \<and>
         (str_strip rt (message_text m) \<noteq> [] \<or> has_media m \<longrightarrow>
            thread_of ` fst ` set new = set tps) \<and>
         list_all (\<lambda>(c, ok). chat_of c = GROUP_ID cfg) new"
proof -
  obtain texts blocks where d:
    "dispatch rt cfg b m ul tps tr = tr @ texts @ concat blocks"
    "map fst texts =
       (if str_strip rt (message_text m) \<noteq> []
        then map (\<lambda>d. send_message (GROUP_ID cfg) d (text_body ul (message_text m))) tps else [])"
    "if has_media m then list_all2 (media_block cfg m ul) tps blocks else blocks = []"
    using dispatch_calls by blast
  define A where "A = thread_of ` fst ` set texts"
  define B where "B = thread_of ` fst ` set (concat blocks)"
  have A_eq: "A = set (map thread_of (map fst texts))"
    by (simp add: A_def image_image)
  have mt: "map thread_of (map fst texts) = (if str_strip rt (message_text m) \<noteq> [] then tps else [])"
    unfolding d(2) by (simp add: comp_def)
  have A1: "A \<subseteq> set tps"
    unfolding A_eq mt by auto
  have A2: "str_strip rt (message_text m) \<noteq> [] \<Longrightarrow> A = set tps"
    unfolding A_eq mt by simp
  have A3: "list_all (\<lambda>(c, ok). chat_of c = GROUP_ID cfg) texts"
  proof -
    have "map chat_of (map fst texts) =
        (if str_strip rt (message_text m) \<noteq> [] then map (\<lambda>d. GROUP_ID cfg) tps else [])"
      unfolding d(2) by (simp add: comp_def)
    then have "set (map chat_of (map fst texts)) \<subseteq> {GROUP_ID cfg}"
      by (simp split: if_splits) auto
    then show ?thesis by (auto simp: list_all_iff)
  qed
  have B1: "B \<subseteq> set tps" and B2: "has_media m \<Longrightarrow> B = set tps"
    and B3: "list_all (\<lambda>(c, ok). chat_of c = GROUP_ID cfg) (concat blocks)"
  proof -
    show "B \<subseteq> set tps"
    proof (cases "has_media m")
      case True
      with d(3) show ?thesis using media_blocks_threads by (simp add: B_def)
    next
      case False
      with d(3) show ?thesis by (simp add: B_def)
    qed
    show "has_media m \<Longrightarrow> B = set tps"
      using d(3) media_blocks_threads by (simp add: B_def)
    show "list_all (\<lambda>(c, ok). chat_of c = GROUP_ID cfg) (concat blocks)"
    proof (cases "has_media m")
      case True
      with d(3) show ?thesis using media_blocks_threads by simp
    next
      case False
      with d(3) show ?thesis by simp
    qed
  qed
  have split: "thread_of ` fst ` set (texts @ concat blocks) = A \<union> B"
    by (simp add: image_Un A_def B_def)
  have "A \<union> B \<subseteq> set tps" using A1 B1 by simp
  moreover have "str_strip rt (message_text m) \<noteq> [] \<or> has_media m \<longrightarrow> A \<union> B = set tps"
    using A1 A2 B1 B2 by blast
  moreover have "list_all (\<lambda>(c, ok). chat_of c = GROUP_ID cfg) (texts @ concat blocks)"
    using A3 B3 by simp
  ultimately show ?thesis using d(1) unfolding split [symmetric] by blast
qed

lemma dispatch_Nil: "dispatch rt cfg b m ul [] tr = tr"
  by (simp add: dispatch_def Let_def)

lemma handle_message_accepted:
  assumes "chat_id m = GROUP_ID cfg"
    and "message_thread_id m = Some (HAUPTGRUPPE_TOPIC_ID cfg)"
    and "from_user m = Some u"
  shows "handle_message rt cfg b now (Some m) s =
    (Inr (),
     \<lparr>user_forwarding_context =
        (if target_topics rt cfg (message_text m) \<noteq> []
         then update_user_context now (id' u) (target_topics rt cfg (message_text m))
                (user_forwarding_context s)
         else if has_media m \<or> str_strip rt (message_text m) \<noteq> []
         then snd (get_active_topics_for_user cfg now (id' u) (user_forwarding_context s))
         else user_forwarding_context s),
      sent = dispatch rt cfg b m (user_link u)
               (final_destinations rt cfg now m u (user_forwarding_context s)) (sent s)\<rparr>)"
  using assms
  by (simp add: handle_message_def final_destinations_def Let_def dispatch_Nil
      split: prod.splits)

lemma caption_text_cases:
  "caption_text m ul =
     (case caption m of
        None \<Rightarrow> attribution_header ul
      | Some cp \<Rightarrow>
          if cp = [] then attribution_header ul
          else attribution_header ul @ '':'' @ [CHR 0x0A, CHR 0x0A] @ cp)"
  by (simp add: caption_text_def split: option.splits)

lemma caption_capable_has_media: "caption_capable m \<Longrightarrow> has_media m"
  by (auto simp: caption_capable_def has_media_def)

lemma media_blocks_captions:
  assumes "list_all2 (media_block cfg m ul) tps blocks"
  shows "list_all (\<lambda>(c, ok). caption_of c = None \<or> caption_of c = Some (caption_text m ul))
           (concat blocks)"
    and "caption_capable m \<Longrightarrow> d \<in> set tps \<Longrightarrow>
         \<exists>x \<in> set (concat blocks). is_payload (fst x) \<and> thread_of (fst x) = d \<and>
            caption_of (fst x) = Some (caption_text m ul)"
  using assms
proof (induction tps blocks rule: list_all2_induct)
  case Nil
  { case 1 show ?case by simp }
  { case 2 then show ?case by simp }
next
  case (Cons t tps blk blocks)
  { case 1
    from Cons.hyps(1) have "list_all (\<lambda>(c, ok). caption_of c = None \<or> caption_of c = Some (caption_text m ul)) blk"
      by (auto simp: media_block_def list_all_iff)
    with Cons.IH(1) show ?case by simp }
  { case 2
    show ?case
    proof (cases "d = t")
      case True
      from 2(1) Cons.hyps(1) have ne: "blk \<noteq> []" and pl: "is_payload (fst (hd blk))"
        and cp: "map (caption_of \<circ> fst) blk = [Some (caption_text m ul)]"
        and th: "\<forall>x \<in> set blk. thread_of (fst x) = t"
        using caption_capable_has_media [of m]
        by (auto simp: media_block_def list_all_iff)
      from cp obtain x where x: "blk = [x]" "caption_of (fst x) = Some (caption_text m ul)"
        by (cases blk) auto
      with pl th True show ?thesis by simp
    next
      case False
      with 2 have "d \<in> set tps" by simp
      with Cons.IH(2) [OF 2(1)] show ?thesis by auto
    qed }
qed

lemma dispatch_captions:
  "\<exists>new. dispatch rt cfg b m ul tps tr = tr @ new \<and>
     list_all (\<lambda>(c, ok). caption_of c = None \<or> caption_of c = Some (caption_text m ul)) new \<and>
     (caption_capable m \<longrightarrow>
        (\<forall>d \<in> set tps. \<exists>x \<in> set new. is_payload (fst x) \<and> thread_of (fst x) = d \<and>
           caption_of (fst x) = Some (caption_text m ul)))"
proof -
  obtain texts blocks where d:
    "dispatch rt cfg b m ul tps tr = tr @ texts @ concat blocks"
    "map fst texts =
       (if str_strip rt (message_text m) \<noteq> []
        then map (\<lambda>d. send_message (GROUP_ID cfg) d (text_body ul (message_text m))) tps else [])"
    "if has_media m then list_all2 (media_block cfg m ul) tps blocks else blocks = []"
    using dispatch_calls by blast
  have T: "list_all (\<lambda>(c, ok). caption_of c = None \<or> caption_of c = Some (caption_text m ul)) texts"
  proof -
    have "map caption_of (map fst texts) =
        (if str_strip rt (message_text m) \<noteq> [] then map (\<lambda>d. None) tps else [])"
      unfolding d(2) by (simp add: comp_def)
    then have "set (map caption_of (map fst texts)) \<subseteq> {None}"
      by (simp split: if_splits) auto
    then show ?thesis by (auto simp: list_all_iff)
  qed
  have B: "list_all (\<lambda>(c, ok). caption_of c = None \<or> caption_of c = Some (caption_text m ul)) (concat blocks)"
  proof (cases "has_media m")
    case True
    with d(3) show ?thesis using media_blocks_captions(1) by simp
  next
    case False
    with d(3) show ?thesis by simp
  qed
  have E: "caption_capable m \<longrightarrow>
        (\<forall>d \<in> set tps. \<exists>x \<in> set (texts @ concat blocks). is_payload (fst x) \<and> thread_of (fst x) = d \<and>
           caption_of (fst x) = Some (caption_text m ul))"
  proof (intro impI ballI)
    fix t assume cc: "caption_capable m" and t: "t \<in> set tps"
    from cc d(3) have "list_all2 (media_block cfg m ul) tps blocks"
      using caption_capable_has_media by simp
    from media_blocks_captions(2) [OF this cc t]
    show "\<exists>x \<in> set (texts @ concat blocks). is_payload (fst x) \<and> thread_of (fst x) = t \<and>
           caption_of (fst x) = Some (caption_text m ul)"
      by auto
  qed
  have "list_all (\<lambda>(c, ok). caption_of c = None \<or> caption_of c = Some (caption_text m ul)) (texts @ concat blocks)"
    using T B by simp
  with d(1) E show ?thesis by blast
qed

section \<open>Evaluating the handler\<close>

lemmas run_defs =
  handle_message_def dispatch_def forward_media_to_topic_def attempt_def target_topics_def
  message_text_def has_media_def user_link_def str_int_def digits.simps attribution_header_def
  caption_text_def text_body_def get_active_topics_for_user_def update_user_context_def
  timedelta_minutes_def sublist_code Let_def

lemmas message_defs =
  msg_bike_def msg_follow_up_def msg_photo_def msg_video_note_def msg_sticker_def
  msg_no_sender_def state_ann_suche_def bot_ok_def bot_down_def bot_no_text_def
  bot_no_video_note_3_def

section \<open>Routing by hashtag\<close>

text \<open>
  Claim C5. A message of the monitored thread with a sender and at least one hashtag
  makes the handler return normally; every call it adds goes to the group and to one of
  the hashtag topics, each hashtag topic is called when the text is not blank or there is
  media, and the sender's context afterwards is exactly these topics with the timestamp
  \<open>now\<close>, whatever entry the sender had before; other senders' entries are as before.
\<close>

theorem keyword_route_overwrites_context:
  assumes "chat_id m = GROUP_ID cfg"
    and "message_thread_id m = Some (HAUPTGRUPPE_TOPIC_ID cfg)"
    and "from_user m = Some u"
    and "target_topics rt cfg (message_text m) \<noteq> []"
  shows "\<exists>new.
    handle_message rt cfg b now (Some m) s =
      (Inr (),
       \<lparr>user_forwarding_context =
          (user_forwarding_context s)
            (id' u \<mapsto> \<lparr>topics = target_topics rt cfg (message_text m), timestamp = now\<rparr>),
        sent = sent s @ new\<rparr>) \<and>
    thread_of ` fst ` set new \<subseteq> set (target_topics rt cfg (message_text m)) \<and>
    (str_strip rt (message_text m) \<noteq> [] \<or> has_media m \<longrightarrow>
       thread_of ` fst ` set new = set (target_topics rt cfg (message_text m))) \<and>
    list_all (\<lambda>(c, ok). chat_of c = GROUP_ID cfg) new"
proof -
  have fd: "final_destinations rt cfg now m u (user_forwarding_context s) =
      target_topics rt cfg (message_text m)"
    using assms(4) by (simp add: final_destinations_def Let_def)
  from dispatch_threads [of rt cfg b m "user_link u" "target_topics rt cfg (message_text m)" "sent s"]
  obtain new where new:
    "dispatch rt cfg b m (user_link u) (target_topics rt cfg (message_text m)) (sent s) = sent s @ new"
    "thread_of ` fst ` set new \<subseteq> set (target_topics rt cfg (message_text m))"
    "str_strip rt (message_text m) \<noteq> [] \<or> has_media m \<longrightarrow>
       thread_of ` fst ` set new = set (target_topics rt cfg (message_text m))"
    "list_all (\<lambda>(c, ok). chat_of c = GROUP_ID cfg) new"
    by blast
  have "handle_message rt cfg b now (Some m) s =
      (Inr (),
       \<lparr>user_forwarding_context =
          (user_forwarding_context s)
            (id' u \<mapsto> \<lparr>topics = target_topics rt cfg (message_text m), timestamp = now\<rparr>),
        sent = sent s @ new\<rparr>)"
    using handle_message_accepted [OF assms(1-3), of rt b now s] assms(4) new(1)
    by (simp add: fd update_user_context_def)
  with new(2-4) show ?thesis by blast
qed

theorem keyword_route_overwrites_context_witness:
  "chat_id msg_bike = GROUP_ID default_config \<and>
   message_thread_id msg_bike = Some (HAUPTGRUPPE_TOPIC_ID default_config) \<and>
   from_user msg_bike = Some ann \<and>
   target_topics ascii_runtime default_config (message_text msg_bike) = [3] \<and>
   user_forwarding_context state_ann_suche 42 = Some \<lparr>topics = [4], timestamp = 0\<rparr> \<and>
   user_forwarding_context
     (snd (handle_message ascii_runtime default_config bot_ok 1000 (Some msg_bike) state_ann_suche)) 42 =
     Some \<lparr>topics = [3], timestamp = 1000\<rparr> \<and>
   map (thread_of \<circ> fst)
     (sent (snd (handle_message ascii_runtime default_config bot_ok 1000 (Some msg_bike) state_ann_suche))) =
     [3]"
proof -
  have h1: "chat_id msg_bike = GROUP_ID default_config"
    and h2: "message_thread_id msg_bike = Some (HAUPTGRUPPE_TOPIC_ID default_config)"
    and h3: "from_user msg_bike = Some ann"
    and tt: "target_topics ascii_runtime default_config (message_text msg_bike) = [3]"
    by (simp_all add: run_defs message_defs concrete_defs)
  from tt have h4: "target_topics ascii_runtime default_config (message_text msg_bike) \<noteq> []"
    by simp
  from keyword_route_overwrites_context [OF h1 h2 h3 h4, of bot_ok 1000 state_ann_suche]
  obtain new where
    "handle_message ascii_runtime default_config bot_ok 1000 (Some msg_bike) state_ann_suche =
      (Inr (),
       \<lparr>user_forwarding_context =
          (user_forwarding_context state_ann_suche)
            (id' ann \<mapsto> \<lparr>topics = target_topics ascii_runtime default_config (message_text msg_bike),
                          timestamp = 1000\<rparr>),
        sent = sent state_ann_suche @ new\<rparr>)"
    by blast
  then have "user_forwarding_context
     (snd (handle_message ascii_runtime default_config bot_ok 1000 (Some msg_bike) state_ann_suche)) 42 =
     Some \<lparr>topics = [3], timestamp = 1000\<rparr>"
    by (simp add: tt ann_def)
  moreover have "map (thread_of \<circ> fst)
     (sent (snd (handle_message ascii_runtime default_config bot_ok 1000 (Some msg_bike) state_ann_suche))) =
     [3]"
    by (simp add: run_defs message_defs concrete_defs)
  moreover have "user_forwarding_context state_ann_suche 42 = Some \<lparr>topics = [4], timestamp = 0\<rparr>"
    by (simp add: state_ann_suche_def)
  ultimately show ?thesis using h1 h2 h3 tt by blast
qed

section \<open>Routing by context\<close>

text \<open>
  Claim C6. A message of the monitored thread with a sender, no hashtag, and text that is
  not blank or media, is dispatched to exactly the topics that
  \<open>get_active_topics_for_user\<close> returns for the sender; the dictionary afterwards is the
  one that this call leaves, which is the old one, or the old one without the sender's
  expired entry when the returned list is empty. When the list is empty no call is made.
\<close>

theorem context_route_reads_only:
  assumes "chat_id m = GROUP_ID cfg"
    and "message_thread_id m = Some (HAUPTGRUPPE_TOPIC_ID cfg)"
    and "from_user m = Some u"
    and "target_topics rt cfg (message_text m) = []"
    and "has_media m \<or> str_strip rt (message_text m) \<noteq> []"
  shows "\<exists>new.
    handle_message rt cfg b now (Some m) s =
      (Inr (),
       \<lparr>user_forwarding_context =
          snd (get_active_topics_for_user cfg now (id' u) (user_forwarding_context s)),
        sent = sent s @ new\<rparr>) \<and>
    thread_of ` fst ` set new =
      set (fst (get_active_topics_for_user cfg now (id' u) (user_forwarding_context s))) \<and>
    list_all (\<lambda>(c, ok). chat_of c = GROUP_ID cfg) new \<and>
    (fst (get_active_topics_for_user cfg now (id' u) (user_forwarding_context s)) = [] \<longrightarrow> new = []) \<and>
    (snd (get_active_topics_for_user cfg now (id' u) (user_forwarding_context s)) =
       user_forwarding_context s \<or>
     fst (get_active_topics_for_user cfg now (id' u) (user_forwarding_context s)) = [] \<and>
     snd (get_active_topics_for_user cfg now (id' u) (user_forwarding_context s)) =
       (user_forwarding_context s)(id' u := None))"
proof -
  let ?g = "get_active_topics_for_user cfg now (id' u) (user_forwarding_context s)"
  have fd: "final_destinations rt cfg now m u (user_forwarding_context s) = fst ?g"
    using assms(4,5) by (simp add: final_destinations_def Let_def)
  from dispatch_threads [of rt cfg b m "user_link u" "fst ?g" "sent s"]
  obtain new where new:
    "dispatch rt cfg b m (user_link u) (fst ?g) (sent s) = sent s @ new"
    "thread_of ` fst ` set new \<subseteq> set (fst ?g)"
    "str_strip rt (message_text m) \<noteq> [] \<or> has_media m \<longrightarrow> thread_of ` fst ` set new = set (fst ?g)"
    "list_all (\<lambda>(c, ok). chat_of c = GROUP_ID cfg) new"
    by blast
  have eq: "thread_of ` fst ` set new = set (fst ?g)"
    using new(3) assms(5) by blast
  have hm: "handle_message rt cfg b now (Some m) s =
      (Inr (), \<lparr>user_forwarding_context = snd ?g, sent = sent s @ new\<rparr>)"
    using handle_message_accepted [OF assms(1-3), of rt b now s] assms(4,5) new(1)
    by (simp add: fd)
  have emp: "fst ?g = [] \<longrightarrow> new = []"
    using eq by auto
  have ctx: "snd ?g = user_forwarding_context s \<or>
     fst ?g = [] \<and> snd ?g = (user_forwarding_context s)(id' u := None)"
    by (simp add: get_active_topics_for_user_def Let_def split: option.splits)
  from hm eq new(4) emp ctx show ?thesis by blast
qed

theorem context_route_reads_only_witness:
  "chat_id msg_follow_up = GROUP_ID default_config \<and>
   message_thread_id msg_follow_up = Some (HAUPTGRUPPE_TOPIC_ID default_config) \<and>
   from_user msg_follow_up = Some ann \<and>
   target_topics ascii_runtime default_config (message_text msg_follow_up) = [] \<and>
   str_strip ascii_runtime (message_text msg_follow_up) = ''still available'' \<and>
   get_active_topics_for_user default_config 60000000 42 (user_forwarding_context state_ann_suche) =
     ([4], user_forwarding_context state_ann_suche) \<and>
   user_forwarding_context
     (snd (handle_message ascii_runtime default_config bot_ok 60000000 (Some msg_follow_up)
        state_ann_suche)) = user_forwarding_context state_ann_suche \<and>
   sent (snd (handle_message ascii_runtime default_config bot_ok 60000000 (Some msg_follow_up)
        state_ann_suche)) =
     [(send_message (GROUP_ID default_config) 4 (text_body (user_link ann) ''still available''), True)]"
proof -
  have h1: "chat_id msg_follow_up = GROUP_ID default_config"
    and h2: "message_thread_id msg_follow_up = Some (HAUPTGRUPPE_TOPIC_ID default_config)"
    and h3: "from_user msg_follow_up = Some ann"
    and h4: "target_topics ascii_runtime default_config (message_text msg_follow_up) = []"
    and st: "str_strip ascii_runtime (message_text msg_follow_up) = ''still available''"
    and g: "get_active_topics_for_user default_config 60000000 42 (user_forwarding_context state_ann_suche) =
     ([4], user_forwarding_context state_ann_suche)"
    by (simp_all add: run_defs message_defs concrete_defs)
  from st have h5: "has_media msg_follow_up \<or> str_strip ascii_runtime (message_text msg_follow_up) \<noteq> []"
    by simp
  from context_route_reads_only [OF h1 h2 h3 h4 h5, of bot_ok 60000000 state_ann_suche]
  obtain new where
    "handle_message ascii_runtime default_config bot_ok 60000000 (Some msg_follow_up) state_ann_suche =
      (Inr (),
       \<lparr>user_forwarding_context =
          snd (get_active_topics_for_user default_config 60000000 (id' ann)
                 (user_forwarding_context state_ann_suche)),
        sent = sent state_ann_suche @ new\<rparr>)"
    by blast
  then have "user_forwarding_context
     (snd (handle_message ascii_runtime default_config bot_ok 60000000 (Some msg_follow_up)
        state_ann_suche)) = user_forwarding_context state_ann_suche"
    using g by (simp add: ann_def)
  moreover have "sent (snd (handle_message ascii_runtime default_config bot_ok 60000000 (Some msg_follow_up)
        state_ann_suche)) =
     [(send_message (GROUP_ID default_config) 4 (text_body (user_link ann) ''still available''), True)]"
    by (simp add: run_defs message_defs concrete_defs)
  ultimately show ?thesis using h1 h2 h3 h4 st g by blast
qed

lemma media_block_head:
  assumes "media_block cfg m ul d blk" and "has_media m"
  shows "blk \<noteq> [] \<and> is_payload (fst (hd blk)) \<and> chat_of (fst (hd blk)) = GROUP_ID cfg \<and>
         thread_of (fst (hd blk)) = d"
proof -
  from assms have ne: "blk \<noteq> []" and pl: "is_payload (fst (hd blk))"
    by (simp_all add: media_block_def)
  from ne have "hd blk \<in> set blk" by simp
  moreover from assms(1) have "\<forall>x \<in> set blk. chat_of (fst x) = GROUP_ID cfg \<and> thread_of (fst x) = d"
    by (auto simp: media_block_def list_all_iff)
  ultimately show ?thesis using ne pl by blast
qed

section \<open>Delivery failures\<close>

text \<open>
  Claim C7. Whatever the bot answers to each call, the handler returns normally on a
  message of the monitored thread with a sender, the text is sent to every final
  destination in order when it is not blank, and after that, for a message with media,
  every final destination in order has its payload call attempted.
\<close>

theorem delivery_failures_are_isolated:
  assumes "chat_id m = GROUP_ID cfg"
    and "message_thread_id m = Some (HAUPTGRUPPE_TOPIC_ID cfg)"
    and "from_user m = Some u"
  shows "\<exists>texts blocks.
    fst (handle_message rt cfg b now (Some m) s) = Inr () \<and>
    sent (snd (handle_message rt cfg b now (Some m) s)) = sent s @ texts @ concat blocks \<and>
    map fst texts =
      (if str_strip rt (message_text m) \<noteq> []
       then map (\<lambda>d. send_message (GROUP_ID cfg) d (text_body (user_link u) (message_text m)))
              (final_destinations rt cfg now m u (user_forwarding_context s))
       else []) \<and>
    (if has_media m
     then list_all2
            (\<lambda>d blk. blk \<noteq> [] \<and> is_payload (fst (hd blk)) \<and>
                      chat_of (fst (hd blk)) = GROUP_ID cfg \<and> thread_of (fst (hd blk)) = d)
            (final_destinations rt cfg now m u (user_forwarding_context s)) blocks
     else blocks = [])"
proof -
  let ?ds = "final_destinations rt cfg now m u (user_forwarding_context s)"
  from dispatch_calls [of rt cfg b m "user_link u" ?ds "sent s"]
  obtain texts blocks where d:
    "dispatch rt cfg b m (user_link u) ?ds (sent s) = sent s @ texts @ concat blocks"
    "map fst texts =
       (if str_strip rt (message_text m) \<noteq> []
        then map (\<lambda>d. send_message (GROUP_ID cfg) d (text_body (user_link u) (message_text m))) ?ds
        else [])"
    "if has_media m then list_all2 (media_block cfg m (user_link u)) ?ds blocks else blocks = []"
    by blast
  note hm = handle_message_accepted [OF assms, of rt b now s]
  have r: "fst (handle_message rt cfg b now (Some m) s) = Inr ()"
    by (simp add: hm)
  have t: "sent (snd (handle_message rt cfg b now (Some m) s)) = sent s @ texts @ concat blocks"
    by (simp add: hm d(1))
  have bl: "if has_media m
     then list_all2
            (\<lambda>d blk. blk \<noteq> [] \<and> is_payload (fst (hd blk)) \<and>
                      chat_of (fst (hd blk)) = GROUP_ID cfg \<and> thread_of (fst (hd blk)) = d)
            ?ds blocks
     else blocks = []"
  proof (cases "has_media m")
    case True
    with d(3) have "list_all2 (media_block cfg m (user_link u)) ?ds blocks" by simp
    then have "list_all2
            (\<lambda>d blk. blk \<noteq> [] \<and> is_payload (fst (hd blk)) \<and>
                      chat_of (fst (hd blk)) = GROUP_ID cfg \<and> thread_of (fst (hd blk)) = d)
            ?ds blocks"
      by (rule list_all2_mono) (rule media_block_head [OF _ True])
    with True show ?thesis by simp
  next
    case False
    with d(3) show ?thesis by simp
  qed
  from r t d(2) bl show ?thesis by blast
qed

theorem delivery_failures_are_isolated_witness:
  "chat_id msg_photo = GROUP_ID default_config \<and>
   message_thread_id msg_photo = Some (HAUPTGRUPPE_TOPIC_ID default_config) \<and>
   from_user msg_photo = Some ann \<and>
   fst (handle_message ascii_runtime default_config bot_no_text 0 (Some msg_photo) state0) = Inr () \<and>
   sent (snd (handle_message ascii_runtime default_config bot_no_text 0 (Some msg_photo) state0)) =
     [(send_message (GROUP_ID default_config) 4
         (text_body (user_link ann) ''#suche looking for this''), False),
      (send_photo (GROUP_ID default_config) 4 ''large''
         (text_body (user_link ann) ''#suche looking for this''), True)]"
proof -
  have h1: "chat_id msg_photo = GROUP_ID default_config"
    and h2: "message_thread_id msg_photo = Some (HAUPTGRUPPE_TOPIC_ID default_config)"
    and h3: "from_user msg_photo = Some ann"
    by (simp_all add: message_defs concrete_defs)
  from delivery_failures_are_isolated [OF h1 h2 h3, of ascii_runtime bot_no_text 0 state0]
  have "fst (handle_message ascii_runtime default_config bot_no_text 0 (Some msg_photo) state0) = Inr ()"
    by blast
  moreover have
    "sent (snd (handle_message ascii_runtime default_config bot_no_text 0 (Some msg_photo) state0)) =
     [(send_message (GROUP_ID default_config) 4
         (text_body (user_link ann) ''#suche looking for this''), False),
      (send_photo (GROUP_ID default_config) 4 ''large''
         (text_body (user_link ann) ''#suche looking for this''), True)]"
    by (simp add: run_defs message_defs concrete_defs)
  ultimately show ?thesis using h1 h2 h3 by blast
qed

section \<open>Captions\<close>

text \<open>
  Claim C3 says that the caption of a media call is exactly the attribution header. For a
  photo whose caption is \<open>#suche looking for this\<close> the caption passed to
  \<open>send_photo\<close> is the header followed by a colon, two newlines and that caption.
\<close>

theorem caption_is_not_the_header_counterexample:
  "sent (snd (handle_message ascii_runtime default_config bot_ok 0 (Some msg_photo) state0)) =
     [(send_message (GROUP_ID default_config) 4
         (attribution_header (user_link ann) @ '':'' @ [CHR 0x0A, CHR 0x0A] @
            ''#suche looking for this''), True),
      (send_photo (GROUP_ID default_config) 4 ''large''
         (attribution_header (user_link ann) @ '':'' @ [CHR 0x0A, CHR 0x0A] @
            ''#suche looking for this''), True)] \<and>
   attribution_header (user_link ann) @ '':'' @ [CHR 0x0A, CHR 0x0A] @ ''#suche looking for this'' \<noteq>
     attribution_header (user_link ann)"
  by (simp add: run_defs message_defs concrete_defs)

text \<open>
  Claim C3, amended. In every call with a caption that the handler makes for a message of
  the monitored thread with a sender, the caption is the attribution header (the sender's
  first name linked to the sender's id) when the message has no caption or an empty one,
  and otherwise the header, a colon, two newlines and the message's caption. When the
  payload is a photo, video, document, audio or voice, every final destination gets such
  a call.
\<close>

theorem caption_is_header_then_caption:
  assumes "chat_id m = GROUP_ID cfg"
    and "message_thread_id m = Some (HAUPTGRUPPE_TOPIC_ID cfg)"
    and "from_user m = Some u"
  shows "\<exists>new.
    sent (snd (handle_message rt cfg b now (Some m) s)) = sent s @ new \<and>
    list_all
      (\<lambda>(c, ok). caption_of c = None \<or>
         caption_of c =
           Some (case caption m of
                   None \<Rightarrow> attribution_header (user_link u)
                 | Some cp \<Rightarrow>
                     if cp = [] then attribution_header (user_link u)
                     else attribution_header (user_link u) @ '':'' @ [CHR 0x0A, CHR 0x0A] @ cp))
      new \<and>
    (caption_capable m \<longrightarrow>
       (\<forall>d \<in> set (final_destinations rt cfg now m u (user_forwarding_context s)).
          \<exists>x \<in> set new. is_payload (fst x) \<and> thread_of (fst x) = d \<and>
            caption_of (fst x) =
              Some (case caption m of
                      None \<Rightarrow> attribution_header (user_link u)
                    | Some cp \<Rightarrow>
                        if cp = [] then attribution_header (user_link u)
                        else attribution_header (user_link u) @ '':'' @ [CHR 0x0A, CHR 0x0A] @ cp)))"
  using dispatch_captions [of rt cfg b m "user_link u"
      "final_destinations rt cfg now m u (user_forwarding_context s)" "sent s"]
  by (simp add: handle_message_accepted [OF assms] caption_text_cases)

theorem caption_is_header_then_caption_witness:
  "chat_id msg_photo = GROUP_ID default_config \<and>
   message_thread_id msg_photo = Some (HAUPTGRUPPE_TOPIC_ID default_config) \<and>
   from_user msg_photo = Some ann \<and>
   caption_capable msg_photo \<and>
   final_destinations ascii_runtime default_config 0 msg_photo ann (user_forwarding_context state0) = [4] \<and>
   (\<exists>x \<in> set (sent (snd (handle_message ascii_runtime default_config bot_down 0 (Some msg_photo) state0))).
      is_payload (fst x) \<and> thread_of (fst x) = 4 \<and>
      caption_of (fst x) =
        Some (attribution_header (user_link ann) @ '':'' @ [CHR 0x0A, CHR 0x0A] @
                ''#suche looking for this''))"
proof -
  have h1: "chat_id msg_photo = GROUP_ID default_config"
    and h2: "message_thread_id msg_photo = Some (HAUPTGRUPPE_TOPIC_ID default_config)"
    and h3: "from_user msg_photo = Some ann"
    and cc: "caption_capable msg_photo"
    and cp: "caption msg_photo = Some ''#suche looking for this''"
    and fd: "final_destinations ascii_runtime default_config 0 msg_photo ann
               (user_forwarding_context state0) = [4]"
    by (simp_all add: final_destinations_def caption_capable_def run_defs message_defs concrete_defs)
  from caption_is_header_then_caption [OF h1 h2 h3, of ascii_runtime bot_down 0 state0]
  obtain new where new:
    "sent (snd (handle_message ascii_runtime default_config bot_down 0 (Some msg_photo) state0)) =
       sent state0 @ new"
    "caption_capable msg_photo \<longrightarrow>
       (\<forall>d \<in> set (final_destinations ascii_runtime default_config 0 msg_photo ann
                    (user_forwarding_context state0)).
          \<exists>x \<in> set new. is_payload (fst x) \<and> thread_of (fst x) = d \<and>
            caption_of (fst x) =
              Some (case caption msg_photo of
                      None \<Rightarrow> attribution_header (user_link ann)
                    | Some cp \<Rightarrow>
                        if cp = [] then attribution_header (user_link ann)
                        else attribution_header (user_link ann) @ '':'' @ [CHR 0x0A, CHR 0x0A] @ cp))"
    by blast
  from new(2) cc fd cp
  have "\<exists>x \<in> set new. is_payload (fst x) \<and> thread_of (fst x) = 4 \<and>
      caption_of (fst x) =
        Some (attribution_header (user_link ann) @ '':'' @ [CHR 0x0A, CHR 0x0A] @
                ''#suche looking for this'')"
    by simp
  with new(1) have "\<exists>x \<in> set (sent (snd (handle_message ascii_runtime default_config bot_down 0
        (Some msg_photo) state0))).
      is_payload (fst x) \<and> thread_of (fst x) = 4 \<and>
      caption_of (fst x) =
        Some (attribution_header (user_link ann) @ '':'' @ [CHR 0x0A, CHR 0x0A] @
                ''#suche looking for this'')"
    by (simp add: state0_def)
  with h1 h2 h3 cc fd show ?thesis by blast
qed

section \<open>Video notes and stickers\<close>

text \<open>
  Claim C8 says that a video note is followed by the attribution header as a text message
  to the same destination. Here the video note sent to topic 3 fails and no text follows
  it there, and the text that follows the video note in topic 4 is the header extended by
  the message's caption.
\<close>

theorem follow_up_counterexample:
  "map fst (sent (snd (handle_message ascii_runtime default_config bot_no_video_note_3 0
      (Some msg_video_note) state0))) =
     [send_message (GROUP_ID default_config) 3
        (attribution_header (user_link ann) @ '':'' @ [CHR 0x0A, CHR 0x0A] @ ''#biete #suche note''),
      send_message (GROUP_ID default_config) 4
        (attribution_header (user_link ann) @ '':'' @ [CHR 0x0A, CHR 0x0A] @ ''#biete #suche note''),
      send_video_note (GROUP_ID default_config) 3 ''vn'',
      send_video_note (GROUP_ID default_config) 4 ''vn'',
      send_message (GROUP_ID default_config) 4
        (attribution_header (user_link ann) @ '':'' @ [CHR 0x0A, CHR 0x0A] @ ''#biete #suche note'')] \<and>
   attribution_header (user_link ann) @ '':'' @ [CHR 0x0A, CHR 0x0A] @ ''#biete #suche note'' \<noteq>
     attribution_header (user_link ann)"
  by (simp add: run_defs message_defs concrete_defs)

text \<open>
  Claim C8, amended. For a message with no photo, video, document, audio or voice:
  a video note is sent without a caption and, when that call succeeds, is followed by one
  text message to the same topic; a sticker (without a video note) is sent alone and is
  followed by one text message to the same topic exactly when that call succeeds and the
  message has a caption that is not empty; when the first call fails nothing follows. The
  text of the follow-up is the attribution header, extended by a colon, two newlines and
  the caption when the message has a caption that is not empty. The handler passes the
  link of the sender for \<open>ul\<close>.
\<close>

theorem video_note_and_sticker_follow_up:
  assumes "photo m = []" and "video m = None" and "document m = None" and "audio m = None"
    and "voice m = None"
  shows
    "(video_note m = Some f \<longrightarrow>
        forward_media_to_topic cfg b m d ul tr =
          (if b tr (send_video_note (GROUP_ID cfg) d f)
           then tr @ [(send_video_note (GROUP_ID cfg) d f, True),
                      (send_message (GROUP_ID cfg) d (caption_text m ul),
                       b (tr @ [(send_video_note (GROUP_ID cfg) d f, True)])
                         (send_message (GROUP_ID cfg) d (caption_text m ul)))]
           else tr @ [(send_video_note (GROUP_ID cfg) d f, False)])) \<and>
     (video_note m = None \<and> sticker m = Some f \<longrightarrow>
        forward_media_to_topic cfg b m d ul tr =
          (if b tr (send_sticker (GROUP_ID cfg) d f) \<and> truthy (caption m)
           then tr @ [(send_sticker (GROUP_ID cfg) d f, True),
                      (send_message (GROUP_ID cfg) d (caption_text m ul),
                       b (tr @ [(send_sticker (GROUP_ID cfg) d f, True)])
                         (send_message (GROUP_ID cfg) d (caption_text m ul)))]
           else tr @ [(send_sticker (GROUP_ID cfg) d f, b tr (send_sticker (GROUP_ID cfg) d f))])) \<and>
     caption_text m ul =
       (case caption m of
          None \<Rightarrow> attribution_header ul
        | Some cp \<Rightarrow>
            if cp = [] then attribution_header ul
            else attribution_header ul @ '':'' @ [CHR 0x0A, CHR 0x0A] @ cp)"
proof -
  have "video_note m = Some f \<longrightarrow>
        forward_media_to_topic cfg b m d ul tr =
          (if b tr (send_video_note (GROUP_ID cfg) d f)
           then tr @ [(send_video_note (GROUP_ID cfg) d f, True),
                      (send_message (GROUP_ID cfg) d (caption_text m ul),
                       b (tr @ [(send_video_note (GROUP_ID cfg) d f, True)])
                         (send_message (GROUP_ID cfg) d (caption_text m ul)))]
           else tr @ [(send_video_note (GROUP_ID cfg) d f, False)])"
    using assms by (simp add: forward_media_to_topic_def attempt_def)
  moreover have "video_note m = None \<and> sticker m = Some f \<longrightarrow>
        forward_media_to_topic cfg b m d ul tr =
          (if b tr (send_sticker (GROUP_ID cfg) d f) \<and> truthy (caption m)
           then tr @ [(send_sticker (GROUP_ID cfg) d f, True),
                      (send_message (GROUP_ID cfg) d (caption_text m ul),
                       b (tr @ [(send_sticker (GROUP_ID cfg) d f, True)])
                         (send_message (GROUP_ID cfg) d (caption_text m ul)))]
           else tr @ [(send_sticker (GROUP_ID cfg) d f, b tr (send_sticker (GROUP_ID cfg) d f))])"
    using assms by (simp add: forward_media_to_topic_def attempt_def)
  ultimately show ?thesis using caption_text_cases [of m ul] by blast
qed

theorem video_note_and_sticker_follow_up_witness:
  "photo msg_sticker = [] \<and> video msg_sticker = None \<and> document msg_sticker = None \<and>
   audio msg_sticker = None \<and> voice msg_sticker = None \<and> video_note msg_sticker = None \<and>
   sticker msg_sticker = Some ''st'' \<and>
   video_note (blank_message\<lparr>video_note := Some ''vn''\<rparr>) = Some ''vn'' \<and>
   forward_media_to_topic default_config bot_ok (blank_message\<lparr>video_note := Some ''vn''\<rparr>) 3
       (user_link ann) [] =
     [(send_video_note (GROUP_ID default_config) 3 ''vn'', True),
      (send_message (GROUP_ID default_config) 3 (attribution_header (user_link ann)), True)] \<and>
   forward_media_to_topic default_config bot_ok msg_sticker 3 (user_link ann) [] =
     [(send_sticker (GROUP_ID default_config) 3 ''st'', True),
      (send_message (GROUP_ID default_config) 3
         (attribution_header (user_link ann) @ '':'' @ [CHR 0x0A, CHR 0x0A] @ ''hi''), True)] \<and>
   forward_media_to_topic default_config bot_down msg_sticker 3 (user_link ann) [] =
     [(send_sticker (GROUP_ID default_config) 3 ''st'', False)]"
proof -
  let ?vn = "blank_message\<lparr>video_note := Some ''vn''\<rparr>"
  have v: "photo ?vn = []" "video ?vn = None" "document ?vn = None" "audio ?vn = None"
    "voice ?vn = None" "video_note ?vn = Some ''vn''" "caption ?vn = None"
    by (simp_all add: blank_message_def)
  have k: "photo msg_sticker = []" "video msg_sticker = None" "document msg_sticker = None"
    "audio msg_sticker = None" "voice msg_sticker = None" "video_note msg_sticker = None"
    "sticker msg_sticker = Some ''st''" "caption msg_sticker = Some ''hi''"
    by (simp_all add: msg_sticker_def blank_message_def)
  note tv = video_note_and_sticker_follow_up [OF v(1-5), of "''vn''" default_config bot_ok 3
      "user_link ann" "[]"]
  note ts = video_note_and_sticker_follow_up [OF k(1-5), of "''st''" default_config bot_ok 3
      "user_link ann" "[]"]
  note td = video_note_and_sticker_follow_up [OF k(1-5), of "''st''" default_config bot_down 3
      "user_link ann" "[]"]
  from tv v(6,7) have 1:
    "forward_media_to_topic default_config bot_ok ?vn 3 (user_link ann) [] =
     [(send_video_note (GROUP_ID default_config) 3 ''vn'', True),
      (send_message (GROUP_ID default_config) 3 (attribution_header (user_link ann)), True)]"
    by (simp add: bot_ok_def)
  from ts k(6-8) have 2:
    "forward_media_to_topic default_config bot_ok msg_sticker 3 (user_link ann) [] =
     [(send_sticker (GROUP_ID default_config) 3 ''st'', True),
      (send_message (GROUP_ID default_config) 3
         (attribution_header (user_link ann) @ '':'' @ [CHR 0x0A, CHR 0x0A] @ ''hi''), True)]"
    by (simp add: bot_ok_def)
  from td k(6-8) have 3:
    "forward_media_to_topic default_config bot_down msg_sticker 3 (user_link ann) [] =
     [(send_sticker (GROUP_ID default_config) 3 ''st'', False)]"
    by (simp add: bot_down_def)
  from 1 2 3 k(1-7) v(6) show ?thesis by blast
qed

end
